theory Spec2Isabelle
  imports Main
begin

section \<open>Values and errors\<close>

text \<open>
  What \<^verbatim>\<open>response.json()\<close> hands to the program: the Python value of a JSON document.
  A JSON object is a Python dict, kept here as the list of its items in insertion order
  (the keys of a dict are distinct); an array is a Python list. The literal of a float is
  kept as text: the program never computes with a number.
\<close>

datatype json =
    JNull
  | JBool bool
  | JInt int
  | JFloat string
  | JStr string
  | JArr "json list"
  | JObj "(string \<times> json) list"

text \<open>
  The exceptions that can leave the two functions. \<open>HTTPError\<close> carries the status code of
  the response it was raised for, \<open>KeyError\<close> the missing key, \<open>UnboundLocalError\<close> the
  name of the local variable. \<open>RequestException\<close> stands for \<^verbatim>\<open>requests.get\<close> itself
  failing (no connection, timeout), when there is no response at all.
\<close>

datatype error =
    HTTPError int
  | RequestException
  | JSONDecodeError
  | KeyError string
  | TypeError
  | UnboundLocalError string

text \<open>
  \<^verbatim>\<open>v[k]\<close> with a string key \<open>k\<close>: a dict answers with the value or raises KeyError;
  a list and a string accept integer indices only, and None, a boolean and a number
  are not subscriptable: all of them raise TypeError.
\<close>

fun getitem :: "json \<Rightarrow> string \<Rightarrow> error + json" where
  "getitem (JObj items) k =
     (case map_of items k of None \<Rightarrow> Inl (KeyError k) | Some v \<Rightarrow> Inr v)"
| "getitem JNull k = Inl TypeError"
| "getitem (JBool b) k = Inl TypeError"
| "getitem (JInt i) k = Inl TypeError"
| "getitem (JFloat f) k = Inl TypeError"
| "getitem (JStr s) k = Inl TypeError"
| "getitem (JArr xs) k = Inl TypeError"

text \<open>
  \<^verbatim>\<open>for photo in v\<close>: a list yields its elements, a dict its keys, a string its
  characters (each a string of length one); None, a boolean and a number are not
  iterable and raise TypeError.
\<close>

fun iterate :: "json \<Rightarrow> error + json list" where
  "iterate (JArr xs) = Inr xs"
| "iterate (JObj items) = Inr (map (\<lambda>kv. JStr (fst kv)) items)"
| "iterate (JStr s) = Inr (map (\<lambda>c. JStr [c]) s)"
| "iterate JNull = Inl TypeError"
| "iterate (JBool b) = Inl TypeError"
| "iterate (JInt i) = Inl TypeError"
| "iterate (JFloat f) = Inl TypeError"

section \<open>The outside world\<close>

text \<open>
  A call of \<^verbatim>\<open>requests.get(url, headers=headers)\<close>, and the response object it returns.
  \<open>json_body\<close> is the value \<^verbatim>\<open>response.json()\<close> decodes from the body, \<open>None\<close> when the
  body is not a JSON document.
\<close>

record request =
  req_method :: string
  req_url :: string
  req_headers :: "(string \<times> string) list"

record response =
  status_code :: int
  json_body :: "json option"

text \<open>
  The model class \<^verbatim>\<open>PexelsImage\<close>: the three declared fields and the primary key that
  Django adds (\<^verbatim>\<open>id\<close> in the migration), which stays \<open>None\<close> until an instance is saved.
  The constructor does not validate, so a field holds whatever value the response had.
\<close>

record pexels_image =
  pk :: "int option"
  url :: json
  previewURL :: json
  photographer :: json

text \<open>
  Everything the program can read or change outside its own local variables: the process
  environment, the calls of \<^verbatim>\<open>requests.get\<close> made so far (oldest first), and the rows of
  the database table of \<^verbatim>\<open>PexelsImage\<close>.
\<close>

record world =
  environ :: "string \<Rightarrow> string option"
  sent :: "request list"
  pexelsimage_table :: "pexels_image list"

text \<open>The remote side: what comes back for a request, a response or a failure to get one.\<close>

type_synonym network = "request \<Rightarrow> error + response"

definition requests_get ::
  "network \<Rightarrow> string \<Rightarrow> (string \<times> string) list \<Rightarrow> world \<Rightarrow> (error + response) \<times> world" where
  "requests_get net u hs w =
     (let rq = \<lparr>req_method = ''GET'', req_url = u, req_headers = hs\<rparr>
      in (net rq, w\<lparr>sent := sent w @ [rq]\<rparr>))"

text \<open>
  \<^verbatim>\<open>Response.raise_for_status()\<close> of the requests library: it raises HTTPError for a
  client error (400 to 499) and for a server error (500 to 599), and returns for every
  other status code.
\<close>

definition raise_for_status :: "response \<Rightarrow> error + unit" where
  "raise_for_status r =
     (if 400 \<le> status_code r \<and> status_code r < 600
      then Inl (HTTPError (status_code r)) else Inr ())"

definition response_json :: "response \<Rightarrow> error + json" where
  "response_json r = (case json_body r of None \<Rightarrow> Inl JSONDecodeError | Some v \<Rightarrow> Inr v)"

text \<open>\<^verbatim>\<open>f'{x}'\<close> where \<open>x\<close> is the result of \<^verbatim>\<open>os.environ.get\<close>: the string, or \<^verbatim>\<open>'None'\<close>.\<close>

definition format_value :: "string option \<Rightarrow> string" where
  "format_value x = (case x of None \<Rightarrow> ''None'' | Some s \<Rightarrow> s)"

section \<open>models.py\<close>

text \<open>
  The body of the list comprehension, for one \<open>photo\<close>: the three keyword arguments are
  evaluated from left to right, and the first subscript that fails raises.
\<close>

definition make_image :: "json \<Rightarrow> error + pexels_image" where
  "make_image photo =
     (case getitem photo ''url'' of Inl e \<Rightarrow> Inl e | Inr u \<Rightarrow>
      (case getitem photo ''src'' of Inl e \<Rightarrow> Inl e | Inr s \<Rightarrow>
       (case getitem s ''tiny'' of Inl e \<Rightarrow> Inl e | Inr t \<Rightarrow>
        (case getitem photo ''photographer'' of Inl e \<Rightarrow> Inl e | Inr p \<Rightarrow>
           Inr \<lparr>pk = None, url = u, previewURL = t, photographer = p\<rparr>))))"

text \<open>The list comprehension: one image per photo, in order; an exception ends it.\<close>

fun build_images :: "json list \<Rightarrow> error + pexels_image list" where
  "build_images [] = Inr []"
| "build_images (photo # rest) =
     (case make_image photo of Inl e \<Rightarrow> Inl e | Inr img \<Rightarrow>
      (case build_images rest of Inl e \<Rightarrow> Inl e | Inr imgs \<Rightarrow> Inr (img # imgs)))"

text \<open>Lines 17 to 26 of models.py: what happens to a response that passed the status check.\<close>

definition parse_response :: "response \<Rightarrow> error + pexels_image list" where
  "parse_response r =
     (case response_json r of Inl e \<Rightarrow> Inl e | Inr data \<Rightarrow>
      (case getitem data ''photos'' of Inl e \<Rightarrow> Inl e | Inr photos \<Rightarrow>
       (case iterate photos of Inl e \<Rightarrow> Inl e | Inr ps \<Rightarrow> build_images ps)))"

text \<open>\<^verbatim>\<open>PexelsImage.search(query)\<close>.\<close>

definition PexelsImage_search ::
  "network \<Rightarrow> string \<Rightarrow> world \<Rightarrow> (error + pexels_image list) \<times> world" where
  "PexelsImage_search net query w =
     (let pexels_api_key = environ w ''PEXELS_API_KEY'';
          headers = [(''Authorization'', format_value pexels_api_key)];
          u = ''https://api.pexels.com/v1/search?query='' @ query;
          (got, w') = requests_get net u headers w
      in (case got of Inl e \<Rightarrow> (Inl e, w') | Inr r \<Rightarrow>
          (case raise_for_status r of Inl e \<Rightarrow> (Inl e, w') | Inr _ \<Rightarrow>
             (parse_response r, w'))))"

section \<open>views.py\<close>

text \<open>The request the view receives: its method and the submitted form data.\<close>

record http_request =
  http_method :: string
  POST :: "(string \<times> string) list"

text \<open>A form object is unbound (built without data) or bound to the submitted data.\<close>

datatype form = Unbound | Bound "(string \<times> string) list"

text \<open>
  forms.py is not among the source files, so the view takes the form class as a parameter:
  what \<^verbatim>\<open>form.is_valid()\<close> answers for a form bound to the given data, and what
  \<^verbatim>\<open>form.cleaned_data['query']\<close> is when it is valid.
\<close>

record form_class =
  is_valid :: "(string \<times> string) list \<Rightarrow> bool"
  cleaned_query :: "(string \<times> string) list \<Rightarrow> string"

text \<open>
  Modelled from the spec: the class \<^verbatim>\<open>PexelsSearchForm\<close> of forms.py, which is missing.
  The spec gives it "a single required text field \<^verbatim>\<open>query\<close>"; the form is invalid when
  \<^verbatim>\<open>query\<close> is missing or empty, and otherwise the query is extracted from it.
\<close>

definition PexelsSearchForm :: form_class where
  "PexelsSearchForm =
     \<lparr>is_valid = (\<lambda>d. case map_of d ''query'' of None \<Rightarrow> False | Some v \<Rightarrow> v \<noteq> []),
      cleaned_query = (\<lambda>d. case map_of d ''query'' of None \<Rightarrow> [] | Some v \<Rightarrow> v)\<rparr>"

text \<open>What \<^verbatim>\<open>render\<close> is given: the template name and the two entries of the context.\<close>

record rendered =
  template :: string
  ctx_form :: form
  ctx_images :: "pexels_image list"

definition render :: "string \<Rightarrow> form \<Rightarrow> pexels_image list \<Rightarrow> rendered" where
  "render t f imgs = \<lparr>template = t, ctx_form = f, ctx_images = imgs\<rparr>"

text \<open>
  The view \<^verbatim>\<open>search(request)\<close>. On a POST whose form is not valid nothing is assigned to
  the local variable \<^verbatim>\<open>images\<close>, and reading it for the context raises
  UnboundLocalError.
\<close>

definition views_search ::
  "form_class \<Rightarrow> network \<Rightarrow> http_request \<Rightarrow> world \<Rightarrow> (error + rendered) \<times> world" where
  "views_search Form net request w =
     (if http_method request = ''POST'' then
        (let form = Bound (POST request) in
         if is_valid Form (POST request) then
           (let query = cleaned_query Form (POST request);
                (res, w') = PexelsImage_search net query w
            in (case res of Inl e \<Rightarrow> (Inl e, w')
                | Inr images \<Rightarrow> (Inr (render ''imagefinder/search.html'' form images), w')))
         else (Inl (UnboundLocalError ''images''), w))
      else (Inr (render ''imagefinder/search.html'' Unbound []), w))"

section \<open>Notions the properties are stated with\<close>

text \<open>
  A photo object of the shape the API documents: an object with a string \<^verbatim>\<open>url\<close>, an
  object \<^verbatim>\<open>src\<close> with a string \<^verbatim>\<open>tiny\<close>, and a string \<^verbatim>\<open>photographer\<close>.
\<close>

definition is_str :: "json option \<Rightarrow> bool" where
  "is_str v = (case v of Some (JStr s) \<Rightarrow> True | _ \<Rightarrow> False)"

definition well_formed_photo :: "json \<Rightarrow> bool" where
  "well_formed_photo p =
     (case p of
        JObj items \<Rightarrow>
          is_str (map_of items ''url'') \<and>
          (case map_of items ''src'' of
             Some (JObj src) \<Rightarrow> is_str (map_of src ''tiny'')
           | _ \<Rightarrow> False) \<and>
          is_str (map_of items ''photographer'')
      | _ \<Rightarrow> False)"

text \<open>
  A photo object that lacks one of the fields: \<^verbatim>\<open>url\<close>, \<^verbatim>\<open>src\<close>, \<^verbatim>\<open>tiny\<close> inside an
  object \<^verbatim>\<open>src\<close>, or \<^verbatim>\<open>photographer\<close>.
\<close>

definition missing_field :: "json \<Rightarrow> bool" where
  "missing_field p =
     (case p of
        JObj items \<Rightarrow>
          map_of items ''url'' = None \<or>
          map_of items ''src'' = None \<or>
          (case map_of items ''src'' of Some (JObj src) \<Rightarrow> map_of src ''tiny'' = None
           | _ \<Rightarrow> False) \<or>
          map_of items ''photographer'' = None
      | _ \<Rightarrow> False)"

text \<open>A body with a top-level field \<^verbatim>\<open>photos\<close>.\<close>

definition has_photos :: "json \<Rightarrow> bool" where
  "has_photos data = (case data of JObj items \<Rightarrow> map_of items ''photos'' \<noteq> None | _ \<Rightarrow> False)"

text \<open>
  The spec's ParseError, "response body missing expected structure", is no class of the
  program: it is what the spec calls the exceptions of decoding and subscripting.
\<close>

fun ParseError :: "error \<Rightarrow> bool" where
  "ParseError JSONDecodeError = True"
| "ParseError (KeyError k) = True"
| "ParseError TypeError = True"
| "ParseError (HTTPError c) = False"
| "ParseError RequestException = False"
| "ParseError (UnboundLocalError v) = False"

text \<open>
  How the receiver of a URL finds its parameters: the query component lies between the
  first \<^verbatim>\<open>?\<close> and the fragment that starts at \<^verbatim>\<open>#\<close>; \<^verbatim>\<open>&\<close> separates the parameters,
  and the first \<^verbatim>\<open>=\<close> of a parameter separates its name from its value. Only the
  separators are read here; percent-escapes are left as they are written.
\<close>

fun split_on :: "char \<Rightarrow> string \<Rightarrow> string list" where
  "split_on c [] = [[]]"
| "split_on c (x # xs) =
     (if x = c then [] # split_on c xs
      else (case split_on c xs of [] \<Rightarrow> [[x]] | p # ps \<Rightarrow> (x # p) # ps))"

definition url_params :: "string \<Rightarrow> (string \<times> string) list" where
  "url_params u =
     (let no_fragment = takeWhile (\<lambda>c. c \<noteq> CHR ''#'') u;
          q = drop 1 (dropWhile (\<lambda>c. c \<noteq> CHR ''?'') no_fragment)
      in map (\<lambda>kv. (takeWhile (\<lambda>c. c \<noteq> CHR ''='') kv,
                    drop 1 (dropWhile (\<lambda>c. c \<noteq> CHR ''='') kv)))
             (split_on (CHR ''&'') q))"

text \<open>Concrete worlds, photos, responses and requests to evaluate the functions on.\<close>

definition world0 :: world where
  "world0 = \<lparr>environ = [''PEXELS_API_KEY'' \<mapsto> ''k3y''], sent = [], pexelsimage_table = []\<rparr>"

definition photo1 :: json where
  "photo1 = JObj [(''url'', JStr ''https://www.pexels.com/photo/1/''),
                  (''src'', JObj [(''tiny'', JStr ''https://images.pexels.com/1/tiny.jpg'')]),
                  (''photographer'', JStr ''Ann'')]"

definition photo2 :: json where
  "photo2 = JObj [(''url'', JStr ''https://www.pexels.com/photo/2/''),
                  (''src'', JObj [(''tiny'', JStr ''https://images.pexels.com/2/tiny.jpg'')]),
                  (''photographer'', JStr ''Bob'')]"

definition world1 :: world where
  "world1 =
     \<lparr>environ = [''PEXELS_API_KEY'' \<mapsto> ''k3y'', ''HOME'' \<mapsto> ''/root''],
      sent = [\<lparr>req_method = ''GET'', req_url = ''https://api.pexels.com/v1/search?query=dogs'',
               req_headers = [(''Authorization'', ''k3y'')]\<rparr>],
      pexelsimage_table = [\<lparr>pk = Some 1, url = JStr ''a'', previewURL = JStr ''b'',
                             photographer = JStr ''c''\<rparr>]\<rparr>"

definition response2 :: response where
  "response2 =
     \<lparr>status_code = 200, json_body = Some (JObj [(''photos'', JArr [photo1, photo2])])\<rparr>"

definition response_bad :: response where
  "response_bad =
     \<lparr>status_code = 200,
      json_body = Some (JObj [(''photos'', JArr [photo1, JObj [(''url'', JStr ''u'')]])])\<rparr>"

definition response_304 :: response where
  "response_304 = \<lparr>status_code = 304, json_body = None\<rparr>"

definition response_300 :: response where
  "response_300 =
     \<lparr>status_code = 300, json_body = Some (JObj [(''photos'', JArr [photo1])])\<rparr>"

definition world_no_key :: world where
  "world_no_key = \<lparr>environ = Map.empty, sent = [], pexelsimage_table = []\<rparr>"

definition offline :: network where
  "offline = (\<lambda>rq. Inl RequestException)"

definition get_request :: http_request where
  "get_request = \<lparr>http_method = ''GET'', POST = []\<rparr>"

definition empty_post :: http_request where
  "empty_post = \<lparr>http_method = ''POST'', POST = [(''query'', [])]\<rparr>"

definition response_404 :: response where
  "response_404 =
     \<lparr>status_code = 404, json_body = Some (JObj [(''photos'', JArr [photo1, photo2])])\<rparr>"

definition net_404 :: network where
  "net_404 = (\<lambda>rq. Inr response_404)"

section \<open>Lemmas about the two functions\<close>

text \<open>The search as one expression: the request it sends, and what it makes of the reply.\<close>

lemma search_unfold:
  "PexelsImage_search net query w =
     (let rq = \<lparr>req_method = ''GET'',
                req_url = ''https://api.pexels.com/v1/search?query='' @ query,
                req_headers = [(''Authorization'', format_value (environ w ''PEXELS_API_KEY''))]\<rparr>
      in ((case net rq of Inl e \<Rightarrow> Inl e
           | Inr r \<Rightarrow> (case raise_for_status r of Inl e \<Rightarrow> Inl e | Inr _ \<Rightarrow> parse_response r)),
          w\<lparr>sent := sent w @ [rq]\<rparr>))"
  by (simp add: PexelsImage_search_def requests_get_def Let_def split: sum.splits)

lemma status_2xx_passes:
  "200 \<le> status_code r \<Longrightarrow> status_code r < 300 \<Longrightarrow> raise_for_status r = Inr ()"
  by (simp add: raise_for_status_def)

lemma make_image_Inr:
  "make_image p = Inr img \<longleftrightarrow>
     (\<exists>s. getitem p ''url'' = Inr (url img) \<and> getitem p ''src'' = Inr s \<and>
          getitem s ''tiny'' = Inr (previewURL img) \<and>
          getitem p ''photographer'' = Inr (photographer img) \<and> pk img = None)"
  by (cases img) (auto simp: make_image_def split: sum.splits)

lemma getitem_Inl: "getitem v k = Inl e \<Longrightarrow> ParseError e"
  by (cases v) (auto split: option.splits)

lemma make_image_Inl: "make_image p = Inl e \<Longrightarrow> ParseError e"
  by (auto simp: make_image_def split: sum.splits dest: getitem_Inl)

text \<open>The comprehension succeeds exactly when every photo gives an image, position by position.\<close>

lemma build_images_Inr:
  "build_images ps = Inr imgs \<longleftrightarrow> list_all2 (\<lambda>p img. make_image p = Inr img) ps imgs"
proof (induction ps arbitrary: imgs)
  case Nil
  show ?case by auto
next
  case (Cons p ps)
  show ?case
  proof (cases "make_image p")
    case (Inl e)
    then show ?thesis by (auto simp: list_all2_Cons1)
  next
    case mk: (Inr img)
    show ?thesis
    proof (cases "build_images ps")
      case (Inl e)
      with mk Cons.IH show ?thesis by (auto simp: list_all2_Cons1)
    next
      case (Inr rest)
      with Cons.IH [of rest] have all: "list_all2 (\<lambda>p img. make_image p = Inr img) ps rest"
        by simp
      show ?thesis
      proof
        assume "build_images (p # ps) = Inr imgs"
        with mk Inr have "imgs = img # rest" by simp
        with mk all show "list_all2 (\<lambda>p img. make_image p = Inr img) (p # ps) imgs" by simp
      next
        assume "list_all2 (\<lambda>p img. make_image p = Inr img) (p # ps) imgs"
        then obtain i more where imgs: "imgs = i # more" and hd: "make_image p = Inr i"
          and tl: "list_all2 (\<lambda>p img. make_image p = Inr img) ps more"
          by (auto simp: list_all2_Cons1)
        from tl Cons.IH [of more] Inr have "more = rest" by simp
        with imgs hd mk Inr show "build_images (p # ps) = Inr imgs" by simp
      qed
    qed
  qed
qed

lemma build_images_Inl:
  "build_images ps = Inl e \<Longrightarrow> \<exists>p\<in>set ps. make_image p = Inl e"
  by (induction ps) (auto split: sum.splits)

lemma build_images_fails:
  "p \<in> set ps \<Longrightarrow> make_image p = Inl e \<Longrightarrow> \<exists>e'. build_images ps = Inl e'"
  by (induction ps) (auto split: sum.splits)

lemma missing_field_fails: "missing_field p \<Longrightarrow> \<exists>e. make_image p = Inl e"
  by (cases p)
    (auto simp: missing_field_def make_image_def split: sum.splits option.splits json.splits)

lemma well_formed_makes: "well_formed_photo p \<Longrightarrow> \<exists>img. make_image p = Inr img"
  by (cases p)
    (auto simp: well_formed_photo_def is_str_def make_image_def
      split: sum.splits option.splits json.splits)

lemma well_formed_all_build:
  "\<forall>p\<in>set ps. well_formed_photo p \<Longrightarrow> \<exists>imgs. build_images ps = Inr imgs"
proof (induction ps)
  case Nil
  show ?case by simp
next
  case (Cons p ps)
  then obtain imgs where "build_images ps = Inr imgs" by auto
  moreover from Cons.prems obtain img where "make_image p = Inr img"
    using well_formed_makes [of p] by auto
  ultimately show ?case by simp
qed

lemma built_fields:
  assumes "build_images ps = Inr imgs"
  shows "length imgs = length ps \<and>
     (\<forall>i<length ps.
        getitem (ps ! i) ''url'' = Inr (url (imgs ! i)) \<and>
        (\<exists>src. getitem (ps ! i) ''src'' = Inr src \<and>
               getitem src ''tiny'' = Inr (previewURL (imgs ! i))) \<and>
        getitem (ps ! i) ''photographer'' = Inr (photographer (imgs ! i)) \<and>
        pk (imgs ! i) = None)"
proof -
  from assms have all: "list_all2 (\<lambda>p img. make_image p = Inr img) ps imgs"
    by (simp add: build_images_Inr)
  then have len: "length ps = length imgs"
    by (rule list_all2_lengthD)
  have "\<forall>i<length ps. make_image (ps ! i) = Inr (imgs ! i)"
    using all by (simp add: list_all2_conv_all_nth)
  then show ?thesis
    using len by (auto simp: make_image_Inr)
qed

text \<open>The run of the search on the two-photo response, spelled out.\<close>

lemma search_two_photos:
  "fst (PexelsImage_search (\<lambda>rq. Inr response2) ''cats'' world0) =
     Inr [\<lparr>pk = None, url = JStr ''https://www.pexels.com/photo/1/'',
            previewURL = JStr ''https://images.pexels.com/1/tiny.jpg'',
            photographer = JStr ''Ann''\<rparr>,
          \<lparr>pk = None, url = JStr ''https://www.pexels.com/photo/2/'',
            previewURL = JStr ''https://images.pexels.com/2/tiny.jpg'',
            photographer = JStr ''Bob''\<rparr>]"
  by (simp add: search_unfold response2_def raise_for_status_def parse_response_def
        response_json_def make_image_def photo1_def photo2_def)

lemma no_photos_fails: "\<not> has_photos data \<Longrightarrow> \<exists>e. getitem data ''photos'' = Inl e"
  by (cases data) (auto simp: has_photos_def split: option.splits)

text \<open>Whatever goes wrong after the status check is one of the spec's parse errors.\<close>

lemma parse_response_Inl: "parse_response r = Inl e \<Longrightarrow> ParseError e"
proof -
  assume a: "parse_response r = Inl e"
  then show ?thesis
  proof (cases "response_json r")
    case (Inl e1)
    with a have "e = JSONDecodeError"
      by (auto simp: parse_response_def response_json_def split: option.splits)
    then show ?thesis by simp
  next
    case data: (Inr data)
    show ?thesis
    proof (cases "getitem data ''photos''")
      case (Inl e1)
      with a data have "e = e1" by (simp add: parse_response_def)
      with Inl show ?thesis by (auto dest: getitem_Inl)
    next
      case photos: (Inr photos)
      show ?thesis
      proof (cases "iterate photos")
        case (Inl e1)
        with a data photos have "e = e1" by (simp add: parse_response_def)
        moreover from Inl have "e1 = TypeError" by (cases photos) auto
        ultimately show ?thesis by simp
      next
        case (Inr ps)
        with a data photos have "build_images ps = Inl e" by (simp add: parse_response_def)
        then show ?thesis by (auto dest: build_images_Inl make_image_Inl)
      qed
    qed
  qed
qed

lemma parse_response_Inr:
  assumes "parse_response r = Inr imgs"
  shows "\<exists>data photos ps. json_body r = Some data \<and> getitem data ''photos'' = Inr photos \<and>
           iterate photos = Inr ps \<and> build_images ps = Inr imgs"
  using assms
  by (auto simp: parse_response_def response_json_def split: option.splits sum.splits)

text \<open>The status check: HTTPError for 400 to 599, and the body is read for any other code.\<close>

lemma http_error_4xx_5xx:
  "400 \<le> status_code r \<Longrightarrow> status_code r < 600 \<Longrightarrow>
   fst (PexelsImage_search (\<lambda>rq. Inr r) query w) = Inl (HTTPError (status_code r))"
  by (simp add: search_unfold raise_for_status_def)

lemma other_status_parsed:
  "status_code r < 400 \<or> 600 \<le> status_code r \<Longrightarrow>
   fst (PexelsImage_search (\<lambda>rq. Inr r) query w) = parse_response r"
  by (auto simp: search_unfold raise_for_status_def)

text \<open>A POST whose form is not valid, for any form class.\<close>

lemma invalid_post_raises:
  "http_method request = ''POST'' \<Longrightarrow> \<not> is_valid Form (POST request) \<Longrightarrow>
   views_search Form net request w = (Inl (UnboundLocalError ''images''), w)"
  by (simp add: views_search_def)

text \<open>A query without \<^verbatim>\<open>&\<close> and \<^verbatim>\<open>#\<close> arrives as the one parameter \<^verbatim>\<open>query\<close>.\<close>

lemma split_on_absent: "c \<notin> set xs \<Longrightarrow> split_on c xs = [xs]"
  by (induction xs) auto

lemma query_param_plain:
  assumes "CHR ''&'' \<notin> set query" and "CHR ''#'' \<notin> set query"
  shows "url_params (''https://api.pexels.com/v1/search?query='' @ query) = [(''query'', query)]"
proof -
  have nofrag: "takeWhile (\<lambda>c. c \<noteq> CHR ''#'') (''https://api.pexels.com/v1/search?query='' @ query) =
      ''https://api.pexels.com/v1/search?query='' @ query"
    using assms(2) by (auto simp: takeWhile_eq_all_conv)
  have comp: "drop 1 (dropWhile (\<lambda>c. c \<noteq> CHR ''?'')
      (''https://api.pexels.com/v1/search?query='' @ query)) = ''query='' @ query"
    by simp
  have one: "split_on (CHR ''&'') (''query='' @ query) = [''query='' @ query]"
    using assms(1) by (simp add: split_on_absent)
  have name: "takeWhile (\<lambda>c. c \<noteq> CHR ''='') (''query='' @ query) = ''query''"
    by simp
  have val: "drop 1 (dropWhile (\<lambda>c. c \<noteq> CHR ''='') (''query='' @ query)) = query"
    by simp
  show ?thesis
    unfolding url_params_def Let_def nofrag comp one
    using name val by simp
qed

text \<open>A successful subscript was a lookup in the items of an object.\<close>

lemma getitem_Inr:
  "getitem v k = Inr x \<Longrightarrow> \<exists>items. v = JObj items \<and> map_of items k = Some x"
  by (cases v) (auto split: option.splits)

lemma make_image_map_of:
  assumes "make_image p = Inr img"
  shows "\<exists>items src. p = JObj items \<and>
     map_of items ''url'' = Some (url img) \<and>
     map_of items ''src'' = Some (JObj src) \<and>
     map_of src ''tiny'' = Some (previewURL img) \<and>
     map_of items ''photographer'' = Some (photographer img)"
proof -
  from assms obtain s where u: "getitem p ''url'' = Inr (url img)"
    and s: "getitem p ''src'' = Inr s"
    and t: "getitem s ''tiny'' = Inr (previewURL img)"
    and ph: "getitem p ''photographer'' = Inr (photographer img)"
    by (auto simp: make_image_Inr)
  from u obtain items where p: "p = JObj items" and mu: "map_of items ''url'' = Some (url img)"
    by (auto dest: getitem_Inr)
  from t obtain src where src: "s = JObj src" and mt: "map_of src ''tiny'' = Some (previewURL img)"
    by (auto dest: getitem_Inr)
  from s p src have ms: "map_of items ''src'' = Some (JObj src)"
    by (auto split: option.splits)
  from ph p have mp: "map_of items ''photographer'' = Some (photographer img)"
    by (auto split: option.splits)
  from p mu ms mt mp show ?thesis by blast
qed

lemma built_fields_map_of:
  assumes "build_images ps = Inr imgs"
  shows "length imgs = length ps \<and>
     (\<forall>i<length ps. \<exists>items src. ps ! i = JObj items \<and>
        map_of items ''url'' = Some (url (imgs ! i)) \<and>
        map_of items ''src'' = Some (JObj src) \<and>
        map_of src ''tiny'' = Some (previewURL (imgs ! i)) \<and>
        map_of items ''photographer'' = Some (photographer (imgs ! i)))"
proof -
  from assms have all: "list_all2 (\<lambda>p img. make_image p = Inr img) ps imgs"
    by (simp add: build_images_Inr)
  then have len: "length ps = length imgs"
    by (rule list_all2_lengthD)
  have "\<forall>i<length ps. make_image (ps ! i) = Inr (imgs ! i)"
    using all by (simp add: list_all2_conv_all_nth)
  then have "\<forall>i<length ps. \<exists>items src. ps ! i = JObj items \<and>
        map_of items ''url'' = Some (url (imgs ! i)) \<and>
        map_of items ''src'' = Some (JObj src) \<and>
        map_of src ''tiny'' = Some (previewURL (imgs ! i)) \<and>
        map_of items ''photographer'' = Some (photographer (imgs ! i))"
    using make_image_map_of by blast
  with len show ?thesis by simp
qed

section \<open>The search client on a successful response\<close>

text \<open>
  A response whose body has a \<^verbatim>\<open>photos\<close> list of well-formed photo objects does not give
  a list of images whatever its status is: with status 404 the status check raises, and
  the search ends with the HTTPError of that status.
\<close>

theorem well_formed_body_with_404_raises:
  "status_code response_404 = 404 \<and>
   json_body response_404 = Some (JObj [(''photos'', JArr [photo1, photo2])]) \<and>
   well_formed_photo photo1 \<and> well_formed_photo photo2 \<and>
   fst (PexelsImage_search net_404 ''cats'' world0) = Inl (HTTPError 404)"
  by (simp add: search_unfold net_404_def response_404_def raise_for_status_def
      well_formed_photo_def is_str_def photo1_def photo2_def)

text \<open>
  C1. When the response has a 2xx status and its JSON body is an object whose \<^verbatim>\<open>photos\<close>
  field is a list of N well-formed photo objects (N = 0 included), the search returns a
  list of exactly N images, in the order of the photos: image \<open>i\<close> has the value stored
  under \<^verbatim>\<open>url\<close> in photo \<open>i\<close> as its \<open>url\<close>, the value stored under \<^verbatim>\<open>tiny\<close> in the
  object \<^verbatim>\<open>src\<close> of photo \<open>i\<close> as its \<open>previewURL\<close>, and the value stored under
  \<^verbatim>\<open>photographer\<close> as its \<open>photographer\<close>. Nothing is dropped, merged or reordered, and
  an empty \<^verbatim>\<open>photos\<close> list gives the empty list, not an error.
\<close>

theorem search_one_image_per_photo:
  assumes "200 \<le> status_code r" and "status_code r < 300"
    and "json_body r = Some (JObj body)"
    and "map_of body ''photos'' = Some (JArr ps)"
    and "\<forall>p\<in>set ps. well_formed_photo p"
  shows "\<exists>imgs. fst (PexelsImage_search (\<lambda>rq. Inr r) query w) = Inr imgs \<and>
     length imgs = length ps \<and>
     (\<forall>i<length ps. \<exists>items src. ps ! i = JObj items \<and>
        map_of items ''url'' = Some (url (imgs ! i)) \<and>
        map_of items ''src'' = Some (JObj src) \<and>
        map_of src ''tiny'' = Some (previewURL (imgs ! i)) \<and>
        map_of items ''photographer'' = Some (photographer (imgs ! i)))"
proof -
  from assms(5) obtain imgs where built: "build_images ps = Inr imgs"
    using well_formed_all_build by blast
  from assms(1,2) have ok: "raise_for_status r = Inr ()"
    by (rule status_2xx_passes)
  have "parse_response r = Inr imgs"
    using assms(3,4) built by (simp add: parse_response_def response_json_def)
  with ok have "fst (PexelsImage_search (\<lambda>rq. Inr r) query w) = Inr imgs"
    by (simp add: search_unfold)
  with built_fields_map_of [OF built] show ?thesis by blast
qed

theorem search_one_image_per_photo_witness:
  "200 \<le> status_code response2 \<and> status_code response2 < 300 \<and>
   json_body response2 = Some (JObj [(''photos'', JArr [photo1, photo2])]) \<and>
   map_of [(''photos'', JArr [photo1, photo2])] ''photos'' = Some (JArr [photo1, photo2]) \<and>
   well_formed_photo photo1 \<and> well_formed_photo photo2 \<and>
   fst (PexelsImage_search (\<lambda>rq. Inr response2) ''cats'' world0) =
     Inr [\<lparr>pk = None, url = JStr ''https://www.pexels.com/photo/1/'',
            previewURL = JStr ''https://images.pexels.com/1/tiny.jpg'',
            photographer = JStr ''Ann''\<rparr>,
          \<lparr>pk = None, url = JStr ''https://www.pexels.com/photo/2/'',
            previewURL = JStr ''https://images.pexels.com/2/tiny.jpg'',
            photographer = JStr ''Bob''\<rparr>]"
proof -
  have h1: "200 \<le> status_code response2" and h2: "status_code response2 < 300"
    by (simp_all add: response2_def)
  have h3: "json_body response2 = Some (JObj [(''photos'', JArr [photo1, photo2])])"
    by (simp add: response2_def)
  have h4: "map_of [(''photos'', JArr [photo1, photo2])] ''photos'' = Some (JArr [photo1, photo2])"
    by simp
  have h5: "well_formed_photo photo1 \<and> well_formed_photo photo2"
    by (simp add: well_formed_photo_def is_str_def photo1_def photo2_def)
  then have h5': "\<forall>p\<in>set [photo1, photo2]. well_formed_photo p"
    by simp
  from search_one_image_per_photo [OF h1 h2 h3 h4 h5', of "''cats''" world0]
  obtain imgs where res: "fst (PexelsImage_search (\<lambda>rq. Inr response2) ''cats'' world0) = Inr imgs"
    by blast
  from res search_two_photos have "imgs = [\<lparr>pk = None, url = JStr ''https://www.pexels.com/photo/1/'',
            previewURL = JStr ''https://images.pexels.com/1/tiny.jpg'',
            photographer = JStr ''Ann''\<rparr>,
          \<lparr>pk = None, url = JStr ''https://www.pexels.com/photo/2/'',
            previewURL = JStr ''https://images.pexels.com/2/tiny.jpg'',
            photographer = JStr ''Bob''\<rparr>]"
    by simp
  with res h1 h2 h3 h4 h5 show ?thesis by simp
qed



section \<open>The search client on a malformed body\<close>

text \<open>
  C4. When the response has a 2xx status and a JSON body that has no top-level
  \<^verbatim>\<open>photos\<close> field, or whose \<^verbatim>\<open>photos\<close> list holds a photo object that lacks \<^verbatim>\<open>url\<close>,
  \<^verbatim>\<open>src\<close>, \<^verbatim>\<open>src.tiny\<close> or \<^verbatim>\<open>photographer\<close>, the search fails with a parse error (the
  KeyError or TypeError of the failed subscript, which nothing catches). No list comes
  back, so no entry is skipped and no part of the result is returned.
\<close>

theorem malformed_body_raises:
  assumes "200 \<le> status_code r" and "status_code r < 300"
    and "json_body r = Some data"
    and "\<not> has_photos data \<or>
         (\<exists>body ps p. data = JObj body \<and> map_of body ''photos'' = Some (JArr ps) \<and>
            p \<in> set ps \<and> missing_field p)"
  shows "\<exists>e. fst (PexelsImage_search (\<lambda>rq. Inr r) query w) = Inl e \<and> ParseError e"
proof -
  from assms(1,2) have ok: "raise_for_status r = Inr ()"
    by (rule status_2xx_passes)
  then have run: "fst (PexelsImage_search (\<lambda>rq. Inr r) query w) = parse_response r"
    by (simp add: search_unfold)
  have "\<exists>e. parse_response r = Inl e"
    using assms(4)
  proof
    assume "\<not> has_photos data"
    then obtain e where "getitem data ''photos'' = Inl e"
      using no_photos_fails by blast
    with assms(3) show ?thesis by (simp add: parse_response_def response_json_def)
  next
    assume "\<exists>body ps p. data = JObj body \<and> map_of body ''photos'' = Some (JArr ps) \<and>
            p \<in> set ps \<and> missing_field p"
    then obtain body ps p where data: "data = JObj body"
      and photos: "map_of body ''photos'' = Some (JArr ps)"
      and p: "p \<in> set ps" "missing_field p"
      by blast
    from p obtain e where "build_images ps = Inl e"
      using missing_field_fails build_images_fails by blast
    with assms(3) data photos show ?thesis
      by (simp add: parse_response_def response_json_def)
  qed
  then obtain e where e: "parse_response r = Inl e" ..
  then have "ParseError e" by (rule parse_response_Inl)
  with run e show ?thesis by simp
qed

theorem malformed_body_raises_witness:
  "200 \<le> status_code response_bad \<and> status_code response_bad < 300 \<and>
   json_body response_bad =
     Some (JObj [(''photos'', JArr [photo1, JObj [(''url'', JStr ''u'')]])]) \<and>
   map_of [(''photos'', JArr [photo1, JObj [(''url'', JStr ''u'')]])] ''photos'' =
     Some (JArr [photo1, JObj [(''url'', JStr ''u'')]]) \<and>
   JObj [(''url'', JStr ''u'')] \<in> set [photo1, JObj [(''url'', JStr ''u'')]] \<and>
   missing_field (JObj [(''url'', JStr ''u'')]) \<and>
   (\<exists>e. fst (PexelsImage_search (\<lambda>rq. Inr response_bad) ''cats'' world0) = Inl e \<and>
        ParseError e)"
proof -
  have h1: "200 \<le> status_code response_bad" and h2: "status_code response_bad < 300"
    by (simp_all add: response_bad_def)
  have h3: "json_body response_bad =
      Some (JObj [(''photos'', JArr [photo1, JObj [(''url'', JStr ''u'')]])])"
    by (simp add: response_bad_def)
  have h4: "map_of [(''photos'', JArr [photo1, JObj [(''url'', JStr ''u'')]])] ''photos'' =
     Some (JArr [photo1, JObj [(''url'', JStr ''u'')]])"
    by simp
  have h5: "JObj [(''url'', JStr ''u'')] \<in> set [photo1, JObj [(''url'', JStr ''u'')]]"
    by simp
  have h6: "missing_field (JObj [(''url'', JStr ''u'')])"
    by (simp add: missing_field_def)
  from h4 h5 h6
  have h: "\<not> has_photos (JObj [(''photos'', JArr [photo1, JObj [(''url'', JStr ''u'')]])]) \<or>
     (\<exists>body ps p. JObj [(''photos'', JArr [photo1, JObj [(''url'', JStr ''u'')]])] = JObj body \<and>
        map_of body ''photos'' = Some (JArr ps) \<and> p \<in> set ps \<and> missing_field p)"
    by blast
  from h1 h2 h3 h4 h5 h6 malformed_body_raises [OF h1 h2 h3 h, of "''cats''" world0]
  show ?thesis by blast
qed

section \<open>The status check\<close>

text \<open>
  C3. The search is to fail with an HTTPError that carries the status code for every
  response whose status is not 2xx. Evaluated on a response with status 304 and no JSON
  body, the status check lets the response through and the failure is the
  JSONDecodeError of reading the body; on a response with status 300 and a body with one
  photo, the search returns that photo's image.
\<close>

theorem status_3xx_not_raised:
  "fst (PexelsImage_search (\<lambda>rq. Inr response_304) ''cats'' world0) = Inl JSONDecodeError \<and>
   fst (PexelsImage_search (\<lambda>rq. Inr response_300) ''cats'' world0) =
     Inr [\<lparr>pk = None, url = JStr ''https://www.pexels.com/photo/1/'',
            previewURL = JStr ''https://images.pexels.com/1/tiny.jpg'',
            photographer = JStr ''Ann''\<rparr>]"
  by (simp add: search_unfold response_304_def response_300_def raise_for_status_def
      parse_response_def response_json_def make_image_def photo1_def)

section \<open>The request that is sent\<close>

text \<open>
  C6. The search is to send one GET request to the fixed endpoint, whose parameter
  \<^verbatim>\<open>query\<close> is the input string unmodified. Evaluated on the query
  \<^verbatim>\<open>cats&per_page=80\<close>: one request is sent, its URL is the endpoint followed by the raw
  input, and that URL carries two parameters, \<^verbatim>\<open>query\<close> with the value \<^verbatim>\<open>cats\<close> and
  \<^verbatim>\<open>per_page\<close> with the value \<^verbatim>\<open>80\<close>.
\<close>

theorem query_with_ampersand_splits:
  "map req_url (sent (snd (PexelsImage_search offline ''cats&per_page=80'' world0))) =
     [''https://api.pexels.com/v1/search?query=cats&per_page=80''] \<and>
   url_params ''https://api.pexels.com/v1/search?query=cats&per_page=80'' =
     [(''query'', ''cats''), (''per_page'', ''80'')]"
  by (simp add: search_unfold world0_def url_params_def Let_def)

text \<open>
  C7. Each call of the search reads \<^verbatim>\<open>PEXELS_API_KEY\<close> from the environment as it is at
  that call and sends it as the \<^verbatim>\<open>Authorization\<close> header of its one request; when the
  variable is not set the header is sent all the same, with the text \<^verbatim>\<open>None\<close> as its
  value. Nothing is kept between calls: a second call, made after the environment has
  changed, sends the key of the changed environment.
\<close>

theorem api_key_read_on_each_call:
  "sent (snd (PexelsImage_search net query w)) =
     sent w @
     [\<lparr>req_method = ''GET'',
       req_url = ''https://api.pexels.com/v1/search?query='' @ query,
       req_headers = [(''Authorization'',
          (case environ w ''PEXELS_API_KEY'' of None \<Rightarrow> ''None'' | Some key \<Rightarrow> key))]\<rparr>] \<and>
   sent (snd (PexelsImage_search net query2
               ((snd (PexelsImage_search net query w))\<lparr>environ := env2\<rparr>))) =
     sent w @
     [\<lparr>req_method = ''GET'',
       req_url = ''https://api.pexels.com/v1/search?query='' @ query,
       req_headers = [(''Authorization'',
          (case environ w ''PEXELS_API_KEY'' of None \<Rightarrow> ''None'' | Some key \<Rightarrow> key))]\<rparr>,
      \<lparr>req_method = ''GET'',
       req_url = ''https://api.pexels.com/v1/search?query='' @ query2,
       req_headers = [(''Authorization'',
          (case env2 ''PEXELS_API_KEY'' of None \<Rightarrow> ''None'' | Some key \<Rightarrow> key))]\<rparr>]"
  by (simp add: search_unfold format_value_def Let_def)

theorem api_key_read_on_each_call_witness:
  "sent (snd (PexelsImage_search offline ''cats'' world_no_key)) =
     [\<lparr>req_method = ''GET'', req_url = ''https://api.pexels.com/v1/search?query=cats'',
       req_headers = [(''Authorization'', ''None'')]\<rparr>] \<and>
   sent (snd (PexelsImage_search offline ''dogs''
               ((snd (PexelsImage_search offline ''cats'' world_no_key))
                  \<lparr>environ := [''PEXELS_API_KEY'' \<mapsto> ''s3cret'']\<rparr>))) =
     [\<lparr>req_method = ''GET'', req_url = ''https://api.pexels.com/v1/search?query=cats'',
       req_headers = [(''Authorization'', ''None'')]\<rparr>,
      \<lparr>req_method = ''GET'', req_url = ''https://api.pexels.com/v1/search?query=dogs'',
       req_headers = [(''Authorization'', ''s3cret'')]\<rparr>]"
  using api_key_read_on_each_call
    [of offline "''cats''" world_no_key "''dogs''" "[''PEXELS_API_KEY'' \<mapsto> ''s3cret'']"]
  by (simp add: world_no_key_def)

section \<open>Determinism\<close>

text \<open>
  C10. The outcome of the search, a list of images or an error, is a function of the
  query, of the value of \<^verbatim>\<open>PEXELS_API_KEY\<close> and of the reply to its request: two runs in
  worlds that agree on the key (and may differ in every other variable, in the requests
  sent before and in the database) against the same remote side end with the same list or
  the same error.
\<close>

theorem search_deterministic:
  assumes "environ w1 ''PEXELS_API_KEY'' = environ w2 ''PEXELS_API_KEY''"
  shows "fst (PexelsImage_search net query w1) = fst (PexelsImage_search net query w2)"
  using assms by (simp add: search_unfold Let_def)

theorem search_deterministic_witness:
  "environ world0 ''PEXELS_API_KEY'' = environ world1 ''PEXELS_API_KEY'' \<and>
   fst (PexelsImage_search (\<lambda>rq. Inr response2) ''cats'' world0) =
   fst (PexelsImage_search (\<lambda>rq. Inr response2) ''cats'' world1)"
proof -
  have h: "environ world0 ''PEXELS_API_KEY'' = environ world1 ''PEXELS_API_KEY''"
    by (simp add: world0_def world1_def)
  from h search_deterministic [OF h, of "\<lambda>rq. Inr response2" "''cats''"]
  show ?thesis by simp
qed

section \<open>The view\<close>

text \<open>
  C5. For a request whose method is not POST the view renders the template with an
  unbound form and the empty list of images. The result does not depend on the form
  class or on the remote side, and the world is left as it was: the form is not
  validated and no request is sent.
\<close>

theorem get_renders_empty_list:
  "http_method request \<noteq> ''POST'' \<Longrightarrow>
   views_search Form net request w =
     (Inr \<lparr>template = ''imagefinder/search.html'', ctx_form = Unbound, ctx_images = []\<rparr>, w)"
  by (simp add: views_search_def render_def)

theorem get_renders_empty_list_witness:
  "http_method get_request \<noteq> ''POST'' \<and>
   views_search PexelsSearchForm offline get_request world1 =
     (Inr \<lparr>template = ''imagefinder/search.html'', ctx_form = Unbound, ctx_images = []\<rparr>, world1)"
proof -
  have h: "http_method get_request \<noteq> ''POST''"
    by (simp add: get_request_def)
  from h get_renders_empty_list [OF h, of PexelsSearchForm offline world1]
  show ?thesis by simp
qed

text \<open>
  C2. For a POST whose \<^verbatim>\<open>query\<close> is missing or empty the view is to return an empty
  list of images without a remote call. Evaluated on a POST with the empty query: no
  request is sent (the world is unchanged), and the view does not render anything; it
  ends with the UnboundLocalError of the variable \<^verbatim>\<open>images\<close>.
\<close>

theorem empty_query_post_raises:
  "views_search PexelsSearchForm offline empty_post world0 =
     (Inl (UnboundLocalError ''images''), world0)"
  by (simp add: views_search_def PexelsSearchForm_def empty_post_def)

section \<open>The database\<close>

text \<open>
  C9. Neither the search nor the view writes to the database: whatever the reply, the
  form data and the outcome (a list, an HTTPError, a parse error, an invalid form), the
  table of \<^verbatim>\<open>PexelsImage\<close> is the same after the call as before. The images that the
  search returns were never saved: each has no primary key.
\<close>

theorem no_database_write:
  "pexelsimage_table (snd (PexelsImage_search net query w)) = pexelsimage_table w \<and>
   pexelsimage_table (snd (views_search Form net request w)) = pexelsimage_table w \<and>
   (\<forall>imgs. fst (PexelsImage_search net query w) = Inr imgs \<longrightarrow>
      (\<forall>img\<in>set imgs. pk img = None))"
proof (intro conjI allI impI)
  show "pexelsimage_table (snd (PexelsImage_search net query w)) = pexelsimage_table w"
    by (simp add: search_unfold Let_def)
  show "pexelsimage_table (snd (views_search Form net request w)) = pexelsimage_table w"
    by (simp add: views_search_def search_unfold Let_def split: sum.splits)
next
  fix imgs
  assume "fst (PexelsImage_search net query w) = Inr imgs"
  then obtain r where "parse_response r = Inr imgs"
    by (auto simp: search_unfold Let_def split: sum.splits)
  then obtain ps where built: "build_images ps = Inr imgs"
    using parse_response_Inr by blast
  show "\<forall>img\<in>set imgs. pk img = None"
  proof
    fix img
    assume "img \<in> set imgs"
    then obtain i where "i < length imgs" "imgs ! i = img"
      by (auto simp: in_set_conv_nth)
    with built_fields [OF built] show "pk img = None" by auto
  qed
qed

theorem no_database_write_witness:
  "pexelsimage_table (snd (PexelsImage_search (\<lambda>rq. Inr response2) ''cats'' world1)) =
     pexelsimage_table world1 \<and>
   pexelsimage_table (snd (views_search PexelsSearchForm (\<lambda>rq. Inr response2) empty_post world1)) =
     pexelsimage_table world1 \<and>
   fst (PexelsImage_search (\<lambda>rq. Inr response2) ''cats'' world0) =
     Inr [\<lparr>pk = None, url = JStr ''https://www.pexels.com/photo/1/'',
            previewURL = JStr ''https://images.pexels.com/1/tiny.jpg'',
            photographer = JStr ''Ann''\<rparr>,
          \<lparr>pk = None, url = JStr ''https://www.pexels.com/photo/2/'',
            previewURL = JStr ''https://images.pexels.com/2/tiny.jpg'',
            photographer = JStr ''Bob''\<rparr>] \<and>
   pexelsimage_table (snd (PexelsImage_search (\<lambda>rq. Inr response2) ''cats'' world0)) =
     pexelsimage_table world0"
proof -
  note at1 = no_database_write
    [of "\<lambda>rq. Inr response2" "''cats''" world1 PexelsSearchForm empty_post]
  note at0 = no_database_write
    [of "\<lambda>rq. Inr response2" "''cats''" world0 PexelsSearchForm empty_post]
  have a: "pexelsimage_table (snd (PexelsImage_search (\<lambda>rq. Inr response2) ''cats'' world1)) =
     pexelsimage_table world1"
    by (rule conjunct1 [OF at1])
  have b: "pexelsimage_table
      (snd (views_search PexelsSearchForm (\<lambda>rq. Inr response2) empty_post world1)) =
     pexelsimage_table world1"
    by (rule conjunct1 [OF conjunct2 [OF at1]])
  have c: "pexelsimage_table (snd (PexelsImage_search (\<lambda>rq. Inr response2) ''cats'' world0)) =
     pexelsimage_table world0"
    by (rule conjunct1 [OF at0])
  show ?thesis
    by (intro conjI a b c search_two_photos)
qed

end
